theory Spec2Isabelle
  imports Main
begin

section \<open>Event logs: conversion, delivery clients and the outbox jobs\<close>

text \<open>
  A shallow embedding of \<^verbatim>\<open>event_logs/client.py\<close>, \<^verbatim>\<open>event_logs/models.py\<close>,
  \<^verbatim>\<open>event_logs/tasks.py\<close> and of the event-log step of \<^verbatim>\<open>core/use_case.py\<close>.
  Every function of the source that touches the database, the ClickHouse server, the
  logger or the clock takes the \<open>world\<close> and returns it updated; a Python exception is
  the \<open>Inl\<close> branch of the result. Leading underscores of Python names are dropped
  (\<^verbatim>\<open>_to_snake_case\<close> is \<open>to_snake_case\<close>), and a method \<^verbatim>\<open>Cls.meth\<close> is \<open>Cls_meth\<close>.
\<close>

subsection \<open>Exceptions and log lines\<close>

text \<open>
  The subclasses of Python's \<^verbatim>\<open>Exception\<close> that the code tells apart.
  \<open>DatabaseError\<close> is \<^verbatim>\<open>clickhouse_connect.driver.exceptions.DatabaseError\<close> (with its
  subclasses), the only class the \<^verbatim>\<open>insert\<close> methods catch. \<open>SerializationError\<close> is what
  \<^verbatim>\<open>model_dump_json\<close> raises, \<open>ValueError\<close> what \<^verbatim>\<open>get_event_saver\<close> raises, \<open>DataError\<close>
  what the database raises for a string longer than its column, \<open>OtherException\<close> any
  other exception. Each carries its message, \<^verbatim>\<open>str(e)\<close>.
\<close>

datatype exn =
    DatabaseError string
  | SerializationError string
  | ValueError string
  | DataError string
  | OtherException string

fun str_exn :: "exn \<Rightarrow> string" where
  "str_exn (DatabaseError m) = m"
| "str_exn (SerializationError m) = m"
| "str_exn (ValueError m) = m"
| "str_exn (DataError m) = m"
| "str_exn (OtherException m) = m"

fun is_DatabaseError :: "exn \<Rightarrow> bool" where
  "is_DatabaseError (DatabaseError m) = True"
| "is_DatabaseError e = False"

text \<open>A line of the structured logger: level, event text and the one keyword argument.\<close>

datatype log_line =
    LogError string string
  | LogInfo string string

subsection \<open>Data model\<close>

text \<open>
  A domain event (\<^verbatim>\<open>core.base_model.Model\<close>, not part of the sources at hand) as the
  clients observe it: through \<^verbatim>\<open>event.__class__.__name__\<close> and through
  \<^verbatim>\<open>event.model_dump_json()\<close>, which returns the JSON text or raises.
\<close>

record Model =
  class_name :: string
  model_dump_json :: "exn + string"

text \<open>
  \<^verbatim>\<open>ConvertedData = list[tuple[str, datetime, str, str]]\<close>. A point in time is the
  number of microseconds since the epoch.
\<close>

type_synonym ConvertedRow = "string \<times> int \<times> string \<times> string"
type_synonym ConvertedData = "ConvertedRow list"

text \<open>
  A row of table \<^verbatim>\<open>event_log_outbox\<close>. The table is the list of its rows in
  primary-key order: rows are appended at the end and a row's place stands for its id.
\<close>

record EventLogOutbox =
  event_type :: string
  event_date_time :: int
  environment :: string
  event_context :: string
  is_sent :: bool

definition EVENT_TYPE_MAX_LENGTH :: nat where
  "EVENT_TYPE_MAX_LENGTH = 50"

definition ENVIRONMENT_MAX_LENGTH :: nat where
  "ENVIRONMENT_MAX_LENGTH = 20"

text \<open>
  Everything outside the program that it reads: the Django settings, the clock (the
  value of the \<open>n\<close>-th reading of \<^verbatim>\<open>timezone.now()\<close>) and the behaviour of the libraries,
  none of which is part of the sources:
  \<^item> whether \<^verbatim>\<open>clickhouse_connect.get_client\<close> and \<^verbatim>\<open>Client.insert\<close> raise;
  \<^item> what \<^verbatim>\<open>Client.insert\<close> raises when the rows it is handed are generators and not
    sequences (a generator has no length), or \<open>None\<close> for a driver that reads each
    generator to its end;
  \<^item> what evaluating a \<^verbatim>\<open>select_for_update()\<close> queryset raises: Django's
    \<^verbatim>\<open>TransactionManagementError\<close> when the caller runs the job outside a transaction on
    a database that has transactions, \<open>None\<close> inside a transaction.
\<close>

record runtime =
  ENVIRONMENT :: string
  EVENT_SAVER_TYPE :: string
  clock :: "nat \<Rightarrow> int"
  get_client_raises :: "exn option"
  client_insert_raises :: "exn option"
  generator_rows_raise :: "exn option"
  select_for_update_raises :: "exn option"

text \<open>
  Everything the program changes: the outbox table, the ClickHouse event-log table, the
  lines logged, the number of clock readings so far, and the numbers of ClickHouse
  connections opened and closed.
\<close>

record world =
  outbox :: "EventLogOutbox list"
  event_log :: ConvertedData
  logged :: "log_line list"
  ticks :: nat
  clients_opened :: nat
  clients_closed :: nat

type_synonym 'a outcome = "(exn + 'a) \<times> world"

text \<open>Sequencing: the second step runs on the result of the first unless that raised.\<close>

definition and_then :: "'a outcome \<Rightarrow> ('a \<Rightarrow> world \<Rightarrow> 'b outcome) \<Rightarrow> 'b outcome" where
  "and_then r f = (case r of (Inl e, w) \<Rightarrow> (Inl e, w) | (Inr x, w) \<Rightarrow> f x w)"

definition logger_error :: "string \<Rightarrow> string \<Rightarrow> world \<Rightarrow> world" where
  "logger_error event err w = w\<lparr>logged := logged w @ [LogError event err]\<rparr>"

definition timezone_now :: "runtime \<Rightarrow> world \<Rightarrow> int \<times> world" where
  "timezone_now rt w = (clock rt (ticks w), w\<lparr>ticks := Suc (ticks w)\<rparr>)"

subsection \<open>Event type: camel case to snake case\<close>

text \<open>The character classes \<^verbatim>\<open>[A-Z]\<close>, \<^verbatim>\<open>[a-z]\<close> and \<^verbatim>\<open>[0-9]\<close> of the two patterns.\<close>

definition is_upper :: "char \<Rightarrow> bool" where
  "is_upper c = (65 \<le> (of_char c :: nat) \<and> (of_char c :: nat) \<le> 90)"

definition is_lower :: "char \<Rightarrow> bool" where
  "is_lower c = (97 \<le> (of_char c :: nat) \<and> (of_char c :: nat) \<le> 122)"

definition is_digit :: "char \<Rightarrow> bool" where
  "is_digit c = (48 \<le> (of_char c :: nat) \<and> (of_char c :: nat) \<le> 57)"

text \<open>\<^verbatim>\<open>str.lower()\<close> on ASCII text: an upper-case letter moves up by 32.\<close>

definition lower_char :: "char \<Rightarrow> char" where
  "lower_char c = (if is_upper c then char_of (of_char c + (32 :: nat)) else c)"

definition lower :: "string \<Rightarrow> string" where
  "lower s = map lower_char s"

text \<open>
  \<^verbatim>\<open>re.sub("(.)([A-Z][a-z]+)", r"\1_\2", s)\<close>: scanning from the left, a match at the
  current position is one character other than a newline, an upper-case letter and the
  longest run of at least one lower-case letter; it is replaced by itself with an
  underscore after its first character and the scan goes on behind the match. Where
  nothing matches, the character is copied and the scan moves one place.
\<close>

function sub_capitalized_word :: "string \<Rightarrow> string" where
  "sub_capitalized_word (c # u # l # rest) =
     (if c \<noteq> CHR 0x0A \<and> is_upper u \<and> is_lower l
      then c # CHR ''_'' # u # l # takeWhile is_lower rest
             @ sub_capitalized_word (dropWhile is_lower rest)
      else c # sub_capitalized_word (u # l # rest))"
| "sub_capitalized_word [] = []"
| "sub_capitalized_word [c] = [c]"
| "sub_capitalized_word [c, u] = [c, u]"
  by pat_completeness auto
termination
proof (relation "measure length")
  fix c u l :: char and rest :: string
  have "length (dropWhile is_lower rest) \<le> length rest"
    by (rule length_dropWhile_le)
  then show "(dropWhile is_lower rest, c # u # l # rest) \<in> measure length"
    by simp
qed simp_all

text \<open>
  \<^verbatim>\<open>re.sub("([a-z0-9])([A-Z])", r"\1_\2", s)\<close>: a match is a lower-case letter or digit
  and an upper-case letter; the scan goes on behind the upper-case letter.
\<close>

fun sub_lower_upper :: "string \<Rightarrow> string" where
  "sub_lower_upper (c # u # rest) =
     (if (is_lower c \<or> is_digit c) \<and> is_upper u
      then c # CHR ''_'' # u # sub_lower_upper rest
      else c # sub_lower_upper (u # rest))"
| "sub_lower_upper [] = []"
| "sub_lower_upper [c] = [c]"

definition to_snake_case :: "string \<Rightarrow> string" where
  "to_snake_case event_name =
     (let result = sub_capitalized_word event_name
      in lower (sub_lower_upper result))"

text \<open>
  The rule in the words of the specification, read off the name itself position by
  position: an underscore goes before an upper-case letter when the character before it
  is a lower-case letter or a digit, and when the upper-case letter is followed by a
  lower-case letter (it ends a run of upper-case letters and starts a word) and has a
  character before it; the result is lower-cased. \<open>underscore_before p s\<close> walks \<open>s\<close> with
  \<open>p\<close> the character before it.
\<close>

fun underscore_before :: "char \<Rightarrow> string \<Rightarrow> string" where
  "underscore_before p [] = []"
| "underscore_before p (u # rest) =
     (if is_upper u \<and>
         ((is_lower p \<or> is_digit p) \<or> (case rest of [] \<Rightarrow> False | l # _ \<Rightarrow> is_lower l))
      then CHR ''_'' # u # underscore_before u rest
      else u # underscore_before u rest)"

definition snake_case_rule :: "string \<Rightarrow> string" where
  "snake_case_rule event_name =
     lower (case event_name of [] \<Rightarrow> [] | c # cs \<Rightarrow> c # underscore_before c cs)"

text \<open>A class name in ASCII: letters, digits and underscores, not starting with a digit.\<close>

definition is_identifier_char :: "char \<Rightarrow> bool" where
  "is_identifier_char c = (is_upper c \<or> is_lower c \<or> is_digit c \<or> c = CHR ''_'')"

definition is_class_name :: "string \<Rightarrow> bool" where
  "is_class_name s =
     (case s of [] \<Rightarrow> False | c # cs \<Rightarrow> \<not> is_digit c \<and> list_all is_identifier_char s)"

subsection \<open>Event conversion\<close>

text \<open>
  \<^verbatim>\<open>_convert_data\<close>: the list comprehension takes the events in order; for each one it
  derives the event type, reads the clock, reads the environment and serialises the
  payload, in this order. The first serialisation that raises ends the comprehension.
\<close>

fun convert_data :: "runtime \<Rightarrow> Model list \<Rightarrow> world \<Rightarrow> ConvertedData outcome" where
  "convert_data rt [] w = (Inr [], w)"
| "convert_data rt (event # data) w =
     (let event_name = to_snake_case (class_name event);
          (event_time, w1) = timezone_now rt w
      in case model_dump_json event of
           Inl e \<Rightarrow> (Inl e, w1)
         | Inr event_json \<Rightarrow>
             and_then (convert_data rt data w1)
               (\<lambda>rows w2. (Inr ((event_name, event_time, ENVIRONMENT rt, event_json) # rows), w2)))"

subsection \<open>The ClickHouse client\<close>

text \<open>
  The driver's \<^verbatim>\<open>Client.insert\<close>: it raises what the runtime says, or appends the batch
  to the event-log table.
\<close>

definition client_insert :: "runtime \<Rightarrow> ConvertedData \<Rightarrow> world \<Rightarrow> unit outcome" where
  "client_insert rt data w =
     (case client_insert_raises rt of
        Some e \<Rightarrow> (Inl e, w)
      | None \<Rightarrow> (Inr (), w\<lparr>event_log := event_log w @ data\<rparr>))"

text \<open>
  \<^verbatim>\<open>except DatabaseError as e: logger.error("unable to insert data to clickhouse",
  error=str(e))\<close>, the handler of both \<^verbatim>\<open>insert\<close> and \<^verbatim>\<open>insert_raw\<close>.
\<close>

definition except_DatabaseError :: "unit outcome \<Rightarrow> unit outcome" where
  "except_DatabaseError r =
     (case r of
        (Inl e, w) \<Rightarrow>
          (if is_DatabaseError e
           then (Inr (), logger_error ''unable to insert data to clickhouse'' (str_exn e) w)
           else (Inl e, w))
      | (Inr u, w) \<Rightarrow> (Inr u, w))"

text \<open>
  \<^verbatim>\<open>ClickhouseEventLogClient.insert\<close>: the conversion is an argument of the driver call
  and both stand inside the \<^verbatim>\<open>try\<close>.
\<close>

definition ClickhouseEventLogClient_insert :: "runtime \<Rightarrow> Model list \<Rightarrow> world \<Rightarrow> unit outcome" where
  "ClickhouseEventLogClient_insert rt data w =
     except_DatabaseError (and_then (convert_data rt data w) (client_insert rt))"

text \<open>
  What \<^verbatim>\<open>insert_raw\<close> is handed as \<^verbatim>\<open>data\<close>: a list of tuples, as its annotation
  \<^verbatim>\<open>list[tuple]\<close> says, or a list of generators, each given by the tuple of the items
  it yields when the driver reads it.
\<close>

datatype raw_data = Tuples ConvertedData | Generators ConvertedData

text \<open>
  The driver call of \<^verbatim>\<open>insert_raw\<close>. Tuples go the way of \<open>client_insert\<close>. For
  generators a failure of the store is taken to come first; then the driver raises what
  the runtime says for rows without a length, or reads the generators and appends what
  they yield.
\<close>

definition client_insert_raw_data :: "runtime \<Rightarrow> raw_data \<Rightarrow> world \<Rightarrow> unit outcome" where
  "client_insert_raw_data rt data w =
     (case data of
        Tuples rows \<Rightarrow> client_insert rt rows w
      | Generators yielded \<Rightarrow>
          (case client_insert_raises rt of
             Some e \<Rightarrow> (Inl e, w)
           | None \<Rightarrow>
               (case generator_rows_raise rt of
                  Some e \<Rightarrow> (Inl e, w)
                | None \<Rightarrow> (Inr (), w\<lparr>event_log := event_log w @ yielded\<rparr>))))"

definition ClickhouseEventLogClient_insert_raw :: "runtime \<Rightarrow> raw_data \<Rightarrow> world \<Rightarrow> unit outcome" where
  "ClickhouseEventLogClient_insert_raw rt data w =
     except_DatabaseError (client_insert_raw_data rt data w)"

text \<open>
  \<^verbatim>\<open>ClickhouseEventLogClient.init\<close>, a context manager, applied to the body of the
  \<^verbatim>\<open>with\<close> statement. \<^verbatim>\<open>get_client\<close> runs before the \<^verbatim>\<open>try\<close>: what it raises leaves the
  statement. An exception of the body is logged and not raised again, and
  \<^verbatim>\<open>client.close()\<close> runs in the \<^verbatim>\<open>finally\<close> clause.
\<close>

definition ClickhouseEventLogClient_init ::
    "runtime \<Rightarrow> (world \<Rightarrow> unit outcome) \<Rightarrow> world \<Rightarrow> unit outcome" where
  "ClickhouseEventLogClient_init rt body w =
     (case get_client_raises rt of
        Some e \<Rightarrow> (Inl e, w)
      | None \<Rightarrow>
          (let (r, w1) = body (w\<lparr>clients_opened := Suc (clients_opened w)\<rparr>);
               w2 = (case r of
                       Inl e \<Rightarrow> logger_error ''error while executing clickhouse query'' (str_exn e) w1
                     | Inr u \<Rightarrow> w1)
           in (Inr (), w2\<lparr>clients_closed := Suc (clients_closed w2)\<rparr>)))"

subsection \<open>The stub client and the outbox client\<close>

definition StubEventLogClient_insert :: "runtime \<Rightarrow> Model list \<Rightarrow> world \<Rightarrow> unit outcome" where
  "StubEventLogClient_insert rt data w = (Inr (), w)"

text \<open>
  \<^verbatim>\<open>EventLogClientProtocol.init\<close> and \<^verbatim>\<open>StubEventLogClient.init\<close> yield the client and do
  nothing else: the body's exception leaves the \<^verbatim>\<open>with\<close> statement.
\<close>

definition EventLogClientProtocol_init :: "runtime \<Rightarrow> (world \<Rightarrow> unit outcome) \<Rightarrow> world \<Rightarrow> unit outcome" where
  "EventLogClientProtocol_init rt body w = body w"

text \<open>
  \<^verbatim>\<open>_save_to_outbox\<close>: one row per converted tuple, \<^verbatim>\<open>is_sent=False\<close>, written by one
  \<^verbatim>\<open>bulk_create\<close>. The columns \<^verbatim>\<open>event_type\<close> and \<^verbatim>\<open>environment\<close> are bounded
  (\<^verbatim>\<open>max_length\<close>): the database refuses the whole statement when a string is longer.
\<close>

definition fits_columns :: "EventLogOutbox \<Rightarrow> bool" where
  "fits_columns log =
     (length (event_type log) \<le> EVENT_TYPE_MAX_LENGTH \<and>
      length (environment log) \<le> ENVIRONMENT_MAX_LENGTH)"

definition bulk_create :: "EventLogOutbox list \<Rightarrow> world \<Rightarrow> unit outcome" where
  "bulk_create records w =
     (if list_all fits_columns records
      then (Inr (), w\<lparr>outbox := outbox w @ records\<rparr>)
      else (Inl (DataError ''value too long for type character varying''), w))"

definition save_to_outbox :: "ConvertedData \<Rightarrow> world \<Rightarrow> unit outcome" where
  "save_to_outbox converted_data w =
     (let outbox_records =
            map (\<lambda>(etype, edate, env, ectx).
                   \<lparr>event_type = etype, event_date_time = edate, environment = env,
                    event_context = ectx, is_sent = False\<rparr>)
                converted_data
      in bulk_create outbox_records w)"

definition OutboxEventLogClient_insert :: "runtime \<Rightarrow> Model list \<Rightarrow> world \<Rightarrow> unit outcome" where
  "OutboxEventLogClient_insert rt data w = and_then (convert_data rt data w) save_to_outbox"

subsection \<open>Choosing the client\<close>

datatype event_saver = StubEventLogClient | ClickhouseEventLogClient | OutboxEventLogClient

text \<open>\<^verbatim>\<open>get_event_saver\<close> returns \<^verbatim>\<open>cls.init\<close>; the class stands for its factory.\<close>

definition get_event_saver :: "string \<Rightarrow> exn + event_saver" where
  "get_event_saver event_saver_type =
     (if event_saver_type = ''STUB'' then Inr StubEventLogClient
      else if event_saver_type = ''CLICKHOUSE'' then Inr ClickhouseEventLogClient
      else if event_saver_type = ''OUTBOX'' then Inr OutboxEventLogClient
      else Inl (ValueError (''Unknown event saver type: '' @ event_saver_type)))"

fun init :: "event_saver \<Rightarrow> runtime \<Rightarrow> (world \<Rightarrow> unit outcome) \<Rightarrow> world \<Rightarrow> unit outcome" where
  "init StubEventLogClient = EventLogClientProtocol_init"
| "init ClickhouseEventLogClient = ClickhouseEventLogClient_init"
| "init OutboxEventLogClient = EventLogClientProtocol_init"

fun insert_events :: "event_saver \<Rightarrow> runtime \<Rightarrow> Model list \<Rightarrow> world \<Rightarrow> unit outcome" where
  "insert_events StubEventLogClient = StubEventLogClient_insert"
| "insert_events ClickhouseEventLogClient = ClickhouseEventLogClient_insert"
| "insert_events OutboxEventLogClient = OutboxEventLogClient_insert"

text \<open>
  The event-log step of \<^verbatim>\<open>UseCase.execute\<close>:
  \<^verbatim>\<open>with get_event_saver(settings.EVENT_SAVER_TYPE)() as es: es.insert(event_models)\<close>.
\<close>

definition save_event_logs :: "runtime \<Rightarrow> Model list \<Rightarrow> world \<Rightarrow> unit outcome" where
  "save_event_logs rt event_models w =
     (case get_event_saver (EVENT_SAVER_TYPE rt) of
        Inl e \<Rightarrow> (Inl e, w)
      | Inr cls \<Rightarrow> init cls rt (insert_events cls rt event_models) w)"

subsection \<open>The background jobs\<close>

text \<open>Decimal text of a number, as an f-string prints it.\<close>

fun str_nat :: "nat \<Rightarrow> string" where
  "str_nat n =
     (if n < 10 then [''0123456789'' ! n]
      else str_nat (n div 10) @ [''0123456789'' ! (n mod 10)])"

declare str_nat.simps [simp del]

text \<open>
  The lazy queryset \<^verbatim>\<open>EventLogOutbox.objects.select_for_update().filter(is_sent=False)\<close>
  is a filter; each use of it is a statement of its own against the table as it then is:
  \<^verbatim>\<open>exists()\<close>, the iteration that builds \<^verbatim>\<open>logs_to_send\<close>, and \<^verbatim>\<open>update(is_sent=True)\<close>,
  which is an \<^verbatim>\<open>UPDATE\<close> of the rows with \<^verbatim>\<open>is_sent = false\<close>.
\<close>

definition unsent_logs :: "EventLogOutbox list \<Rightarrow> EventLogOutbox list" where
  "unsent_logs table = filter (\<lambda>log. is_sent log = False) table"

definition update_is_sent :: "EventLogOutbox list \<Rightarrow> EventLogOutbox list" where
  "update_is_sent table =
     map (\<lambda>log. if is_sent log = False then log\<lparr>is_sent := True\<rparr> else log) table"

text \<open>
  The projection of a row on \<^verbatim>\<open>EVENT_LOG_COLUMNS\<close>, that is on \<^verbatim>\<open>event_type\<close>,
  \<^verbatim>\<open>event_date_time\<close>, \<^verbatim>\<open>environment\<close> and \<^verbatim>\<open>event_context\<close> in this order.
\<close>

definition log_columns :: "EventLogOutbox \<Rightarrow> ConvertedRow" where
  "log_columns log = (event_type log, event_date_time log, environment log, event_context log)"

text \<open>
  \<^verbatim>\<open>logs_to_send = [(getattr(log, col_name) for col_name in ...) for log in unsent_logs]\<close>:
  one generator for each row read. A generator looks up the variable \<^verbatim>\<open>log\<close> of the
  comprehension when it is read, not when it is made, and it is read inside
  \<^verbatim>\<open>insert_raw\<close>, when the comprehension has ended and \<^verbatim>\<open>log\<close> is the last row: every
  generator yields the columns of the last row.
\<close>

definition logs_to_send :: "EventLogOutbox list \<Rightarrow> raw_data" where
  "logs_to_send logs = Generators (map (\<lambda>log. log_columns (last logs)) logs)"

text \<open>
  \<^verbatim>\<open>send_unsent_logs_to_clickhouse\<close>. The first use of the queryset, \<^verbatim>\<open>exists()\<close>, is where
  a \<^verbatim>\<open>select_for_update\<close> outside a transaction raises; the task has no handler and no
  \<^verbatim>\<open>transaction.atomic\<close> of its own. \<^verbatim>\<open>len(logs_to_send)\<close> is the number of rows read.
\<close>

definition send_unsent_logs_to_clickhouse :: "runtime \<Rightarrow> world \<Rightarrow> string outcome" where
  "send_unsent_logs_to_clickhouse rt w =
     (case select_for_update_raises rt of
        Some e \<Rightarrow> (Inl e, w)
      | None \<Rightarrow>
          (if unsent_logs (outbox w) = [] then (Inr ''No unsent logs to process.'', w)
           else
             (let logs = unsent_logs (outbox w)
              in and_then
                   (ClickhouseEventLogClient_init rt
                      (ClickhouseEventLogClient_insert_raw rt (logs_to_send logs)) w)
                   (\<lambda>u w1.
                      (Inr (''Successfully sent '' @ str_nat (length logs)
                            @ '' logs to Clickhouse.''),
                       w1\<lparr>outbox := update_is_sent (outbox w1)\<rparr>)))))"

text \<open>\<^verbatim>\<open>timedelta(days=30)\<close> in microseconds.\<close>

definition timedelta_days :: "int \<Rightarrow> int" where
  "timedelta_days days = days * 86400 * 1000000"

definition delete_sent_logs :: "runtime \<Rightarrow> world \<Rightarrow> string \<times> world" where
  "delete_sent_logs rt w =
     (let (now, w1) = timezone_now rt w;
          retention_period = now - timedelta_days 30;
          sent_logs = filter (\<lambda>log. is_sent log = True \<and> event_date_time log < retention_period)
                        (outbox w1);
          deleted_count = length sent_logs
      in (''Deleted '' @ str_nat deleted_count @ '' sent logs.'',
          w1\<lparr>outbox := filter (\<lambda>log. \<not> (is_sent log = True \<and> event_date_time log < retention_period))
                          (outbox w1)\<rparr>))"

subsection \<open>Example inputs\<close>

definition local_runtime :: runtime where
  "local_runtime =
     \<lparr>ENVIRONMENT = ''Local'', EVENT_SAVER_TYPE = ''OUTBOX'',
      clock = (\<lambda>n. 1700000000000000 + int n),
      get_client_raises = None, client_insert_raises = None,
      generator_rows_raise = None, select_for_update_raises = None\<rparr>"

definition clickhouse_down :: runtime where
  "clickhouse_down = local_runtime\<lparr>client_insert_raises := Some (DatabaseError ''timed out'')\<rparr>"

text \<open>
  The driver call fails with an exception that is no \<^verbatim>\<open>DatabaseError\<close>; and a driver
  that takes the length of its first row, which a generator does not have.
\<close>

definition connection_reset :: runtime where
  "connection_reset = local_runtime\<lparr>client_insert_raises := Some (OtherException ''connection reset'')\<rparr>"

definition driver_refuses_generators :: runtime where
  "driver_refuses_generators =
     local_runtime\<lparr>generator_rows_raise := Some (OtherException ''TypeError: generator has no len()'')\<rparr>"

definition empty_world :: world where
  "empty_world =
     \<lparr>outbox = [], event_log = [], logged = [], ticks = 0,
      clients_opened = 0, clients_closed = 0\<rparr>"

definition user_created :: Model where
  "user_created = \<lparr>class_name = ''UserCreated'', model_dump_json = Inr ''{}''\<rparr>"

definition report_built :: Model where
  "report_built =
     \<lparr>class_name = ''ReportBuilt'',
      model_dump_json = Inl (SerializationError ''Unable to serialize unknown type'')\<rparr>"

definition unsent_row :: EventLogOutbox where
  "unsent_row =
     \<lparr>event_type = ''user_created'', event_date_time = 1700000000000000,
      environment = ''Local'', event_context = ''{}'', is_sent = False\<rparr>"

definition one_unsent :: world where
  "one_unsent = empty_world\<lparr>outbox := [unsent_row]\<rparr>"

text \<open>
  A second event, and the outbox after \<open>user_created\<close> and \<open>user_deleted\<close> have been
  inserted into the empty outbox at the first two clock readings of \<open>local_runtime\<close>.
\<close>

definition user_deleted :: Model where
  "user_deleted = \<lparr>class_name = ''UserDeleted'', model_dump_json = Inr ''{}''\<rparr>"

definition deleted_row :: EventLogOutbox where
  "deleted_row =
     \<lparr>event_type = ''user_deleted'', event_date_time = 1700000000000001,
      environment = ''Local'', event_context = ''{}'', is_sent = False\<rparr>"

definition two_unsent :: world where
  "two_unsent = empty_world\<lparr>ticks := 2, outbox := [unsent_row, deleted_row]\<rparr>"

text \<open>
  Rows sent 31 days and one day before the first clock reading of \<open>local_runtime\<close>, and a
  row 40 days old that was never sent.
\<close>

definition old_sent_row :: EventLogOutbox where
  "old_sent_row =
     \<lparr>event_type = ''user_created'', event_date_time = 1697321600000000,
      environment = ''Local'', event_context = ''{}'', is_sent = True\<rparr>"

definition recent_sent_row :: EventLogOutbox where
  "recent_sent_row =
     \<lparr>event_type = ''user_created'', event_date_time = 1699913600000000,
      environment = ''Local'', event_context = ''{}'', is_sent = True\<rparr>"

definition old_unsent_row :: EventLogOutbox where
  "old_unsent_row =
     \<lparr>event_type = ''user_created'', event_date_time = 1696544000000000,
      environment = ''Local'', event_context = ''{}'', is_sent = False\<rparr>"

definition retention_example :: world where
  "retention_example = empty_world\<lparr>outbox := [old_sent_row, recent_sent_row, old_unsent_row]\<rparr>"

text \<open>A body of the \<^verbatim>\<open>with\<close> statement in which the caller's own code raises.\<close>

definition raising_body :: "world \<Rightarrow> unit outcome" where
  "raising_body w = (Inl (OtherException ''division by zero''), w)"

section \<open>Properties\<close>

subsection \<open>Conversion\<close>

lemma and_then_Inl [simp]: "and_then (Inl e, w) f = (Inl e, w)"
  by (simp add: and_then_def)

lemma and_then_Inr [simp]: "and_then (Inr x, w) f = f x w"
  by (simp add: and_then_def)

lemma convert_data_Cons_ok:
  "model_dump_json event = Inr j \<Longrightarrow>
   convert_data rt (event # data) w =
     and_then (convert_data rt data (w\<lparr>ticks := Suc (ticks w)\<rparr>))
       (\<lambda>rows w2. (Inr ((to_snake_case (class_name event), clock rt (ticks w), ENVIRONMENT rt, j) # rows), w2))"
  by (simp add: timezone_now_def)

lemma convert_data_Cons_fail:
  "model_dump_json event = Inl e \<Longrightarrow>
   convert_data rt (event # data) w = (Inl e, w\<lparr>ticks := Suc (ticks w)\<rparr>)"
  by (simp add: timezone_now_def)

declare convert_data.simps(2) [simp del]

lemma convert_data_world:
  "convert_data rt data w = (r, w') \<Longrightarrow> w' = w\<lparr>ticks := ticks w'\<rparr> \<and> ticks w \<le> ticks w'"
proof (induction data arbitrary: w r w')
  case Nil
  then show ?case by simp
next
  case (Cons event data)
  show ?case
  proof (cases "model_dump_json event")
    case (Inl e)
    with Cons.prems show ?thesis
      by (auto simp: convert_data_Cons_fail)
  next
    case (Inr j)
    obtain r1 w1 where c: "convert_data rt data (w\<lparr>ticks := Suc (ticks w)\<rparr>) = (r1, w1)"
      by (cases "convert_data rt data (w\<lparr>ticks := Suc (ticks w)\<rparr>)")
    from Cons.IH [OF c] have w1: "w1 = w\<lparr>ticks := ticks w1\<rparr>" "ticks w < ticks w1"
      by (cases w; cases w1; simp)+
    from Cons.prems Inr c have "w' = w1"
      by (cases r1) (auto simp: convert_data_Cons_ok)
    with w1 show ?thesis by simp
  qed
qed

lemma convert_data_Inr:
  "convert_data rt data w = (Inr rows, w') \<Longrightarrow>
     w' = w\<lparr>ticks := ticks w + length data\<rparr> \<and>
     length rows = length data \<and>
     map (\<lambda>(etype, etime, env, ectx). etype) rows = map (\<lambda>event. to_snake_case (class_name event)) data \<and>
     map (\<lambda>(etype, etime, env, ectx). Inr ectx) rows = map model_dump_json data \<and>
     map (\<lambda>(etype, etime, env, ectx). env) rows = map (\<lambda>event. ENVIRONMENT rt) data \<and>
     map (\<lambda>(etype, etime, env, ectx). etime) rows = map (\<lambda>i. clock rt (ticks w + i)) [0..<length data]"
proof (induction data arbitrary: w rows w')
  case Nil
  then show ?case by simp
next
  case (Cons event data)
  show ?case
  proof (cases "model_dump_json event")
    case (Inl e)
    with Cons.prems show ?thesis
      by (simp add: convert_data_Cons_fail)
  next
    case (Inr j)
    obtain r1 w1 where c: "convert_data rt data (w\<lparr>ticks := Suc (ticks w)\<rparr>) = (r1, w1)"
      by (cases "convert_data rt data (w\<lparr>ticks := Suc (ticks w)\<rparr>)")
    from Cons.prems Inr c obtain rows1 where
      r1: "r1 = Inr rows1" and rows: "rows = (to_snake_case (class_name event), clock rt (ticks w), ENVIRONMENT rt, j) # rows1"
      and w': "w' = w1"
      by (cases r1) (auto simp: convert_data_Cons_ok)
    note ih = Cons.IH [OF c [unfolded r1]]
    have t: "map (\<lambda>i. clock rt (ticks w + i)) [0..<length (event # data)]
       = clock rt (ticks w) # map (\<lambda>i. clock rt (Suc (ticks w) + i)) [0..<length data]"
      by (simp add: upt_conv_Cons map_Suc_upt [symmetric] del: upt_Suc)
    from ih show ?thesis
      unfolding t by (simp add: rows w' Inr)
  qed
qed

lemma convert_data_total:
  "list_all (\<lambda>event. \<not> isl (model_dump_json event)) data \<Longrightarrow>
     \<exists>rows. convert_data rt data w = (Inr rows, w\<lparr>ticks := ticks w + length data\<rparr>)"
proof (induction data arbitrary: w)
  case Nil
  then show ?case by simp
next
  case (Cons event data)
  then obtain j where j: "model_dump_json event = Inr j"
    by (cases "model_dump_json event") auto
  from Cons obtain rows where
    "convert_data rt data (w\<lparr>ticks := Suc (ticks w)\<rparr>)
       = (Inr rows, w\<lparr>ticks := Suc (ticks w)\<rparr>\<lparr>ticks := ticks (w\<lparr>ticks := Suc (ticks w)\<rparr>) + length data\<rparr>)"
    by fastforce
  then show ?case
    by (simp add: convert_data_Cons_ok [OF j])
qed

lemma convert_data_first_failure:
  "list_all (\<lambda>event. \<not> isl (model_dump_json event)) pre \<Longrightarrow> model_dump_json event = Inl e \<Longrightarrow>
     convert_data rt (pre @ event # post) w = (Inl e, w\<lparr>ticks := ticks w + length pre + 1\<rparr>)"
proof (induction pre arbitrary: w)
  case Nil
  then show ?case by (simp add: convert_data_Cons_fail)
next
  case (Cons x pre)
  then obtain j where j: "model_dump_json x = Inr j"
    by (cases "model_dump_json x") auto
  from Cons have "convert_data rt (pre @ event # post) (w\<lparr>ticks := Suc (ticks w)\<rparr>)
      = (Inl e, w\<lparr>ticks := Suc (ticks w)\<rparr>\<lparr>ticks := ticks (w\<lparr>ticks := Suc (ticks w)\<rparr>) + length pre + 1\<rparr>)"
    by simp
  then show ?case
    by (simp add: convert_data_Cons_ok [OF j])
qed

subsection \<open>The reconciliation job when the batch write fails\<close>

text \<open>
  Claim C1. If the batch write to the analytics store fails during the flush, every
  row that was unsent before the run is still unsent after it and the run returns a
  failure status, without raising. The code does not do this. With one unsent row and
  a driver whose \<^verbatim>\<open>Client.insert\<close> raises a \<^verbatim>\<open>DatabaseError\<close>, \<^verbatim>\<open>insert_raw\<close> logs the
  error and returns, the \<^verbatim>\<open>with\<close> block ends normally, the \<^verbatim>\<open>UPDATE\<close> marks the row sent
  and the run answers with its success text, while nothing has reached the event-log
  table.
\<close>

theorem send_unsent_logs_failed_write_marks_sent:
  "send_unsent_logs_to_clickhouse clickhouse_down one_unsent =
     (Inr ''Successfully sent 1 logs to Clickhouse.'',
      one_unsent\<lparr>outbox := [unsent_row\<lparr>is_sent := True\<rparr>],
        logged := [LogError ''unable to insert data to clickhouse'' ''timed out''],
        clients_opened := 1, clients_closed := 1\<rparr>)"
  by (simp add: send_unsent_logs_to_clickhouse_def clickhouse_down_def local_runtime_def
      one_unsent_def empty_world_def unsent_row_def unsent_logs_def update_is_sent_def
      log_columns_def logs_to_send_def and_then_def ClickhouseEventLogClient_init_def
      ClickhouseEventLogClient_insert_raw_def client_insert_raw_data_def
      except_DatabaseError_def logger_error_def str_nat.simps)

subsection \<open>The ClickHouse client\<close>



text \<open>
  Claim C10. Inside the scope of \<^verbatim>\<open>ClickhouseEventLogClient.init\<close>, an exception raised by
  the body (by \<^verbatim>\<open>insert\<close> or by the caller's own code) is logged and does not leave the
  scope, and the connection is closed whether the body returned or raised.
\<close>

theorem ClickhouseEventLogClient_init_scope:
  assumes "get_client_raises rt = None"
    and "body (w\<lparr>clients_opened := Suc (clients_opened w)\<rparr>) = (r, w1)"
  shows "ClickhouseEventLogClient_init rt body w =
           (Inr (),
            w1\<lparr>logged := logged w1 @ (case r of Inl e \<Rightarrow> [LogError ''error while executing clickhouse query'' (str_exn e)] | Inr u \<Rightarrow> []),
               clients_closed := Suc (clients_closed w1)\<rparr>)"
  using assms
  by (cases r) (simp_all add: ClickhouseEventLogClient_init_def logger_error_def)

theorem ClickhouseEventLogClient_init_scope_witness:
  "get_client_raises local_runtime = None \<and>
   raising_body (empty_world\<lparr>clients_opened := 1\<rparr>)
     = (Inl (OtherException ''division by zero''), empty_world\<lparr>clients_opened := 1\<rparr>) \<and>
   ClickhouseEventLogClient_init local_runtime raising_body empty_world
     = (Inr (), empty_world\<lparr>clients_opened := 1,
          logged := [LogError ''error while executing clickhouse query'' ''division by zero''],
          clients_closed := 1\<rparr>)"
proof -
  have a: "get_client_raises local_runtime = None"
    by (simp add: local_runtime_def)
  have b: "raising_body (empty_world\<lparr>clients_opened := Suc (clients_opened empty_world)\<rparr>)
     = (Inl (OtherException ''division by zero''), empty_world\<lparr>clients_opened := 1\<rparr>)"
    by (simp add: raising_body_def empty_world_def)
  from ClickhouseEventLogClient_init_scope [of local_runtime raising_body empty_world, OF a b] a b show ?thesis
    by (simp add: empty_world_def)
qed

subsection \<open>The outbox client\<close>

text \<open>
  Claim C7. If the payload of some event of the batch cannot be serialised, the
  conversion fails with the serialisation error of an event of the batch, the error
  leaves \<^verbatim>\<open>OutboxEventLogClient.insert\<close>, and no row at all is written to the outbox.
\<close>

theorem OutboxEventLogClient_insert_serialization_failure:
  assumes "event \<in> set data" and "isl (model_dump_json event)"
  shows "\<exists>bad e w'. OutboxEventLogClient_insert rt data w = (Inl e, w') \<and>
           bad \<in> set data \<and> model_dump_json bad = Inl e \<and> outbox w' = outbox w \<and> event_log w' = event_log w"
proof -
  from assms have "\<exists>x\<in>set data. isl (model_dump_json x)" by blast
  then obtain pre bad post where d: "data = pre @ bad # post" and bad: "isl (model_dump_json bad)"
    and pre: "\<forall>x\<in>set pre. \<not> isl (model_dump_json x)"
    by (auto simp: split_list_first_prop_iff)
  from bad obtain e where e: "model_dump_json bad = Inl e"
    by (cases "model_dump_json bad") auto
  from pre have "list_all (\<lambda>x. \<not> isl (model_dump_json x)) pre"
    by (simp add: list_all_iff)
  from convert_data_first_failure [OF this e]
  have "OutboxEventLogClient_insert rt data w = (Inl e, w\<lparr>ticks := ticks w + length pre + 1\<rparr>)"
    by (simp add: OutboxEventLogClient_insert_def d)
  with d e show ?thesis by auto
qed

theorem OutboxEventLogClient_insert_serialization_failure_witness:
  "report_built \<in> set [user_created, report_built] \<and> isl (model_dump_json report_built) \<and>
   (\<exists>bad e w'. OutboxEventLogClient_insert local_runtime [user_created, report_built] empty_world = (Inl e, w') \<and>
      bad \<in> set [user_created, report_built] \<and> model_dump_json bad = Inl e \<and>
      outbox w' = outbox empty_world \<and> event_log w' = event_log empty_world)"
proof -
  have a: "report_built \<in> set [user_created, report_built]" by simp
  have b: "isl (model_dump_json report_built)" by (simp add: report_built_def)
  from OutboxEventLogClient_insert_serialization_failure [OF a b, of local_runtime empty_world] a b
  show ?thesis by blast
qed

subsection \<open>Choosing the client\<close>

text \<open>
  Claim C8. \<^verbatim>\<open>get_event_saver\<close> knows exactly the three names of the stub, the ClickHouse
  and the outbox client and returns the factory of the class named; every other name
  raises \<^verbatim>\<open>ValueError\<close> at once, so that the event-log step of a use case ends there with
  the world unchanged: nothing has been converted or inserted.
\<close>

theorem get_event_saver_selection:
  "(get_event_saver name = Inr StubEventLogClient \<longleftrightarrow> name = ''STUB'') \<and>
   (get_event_saver name = Inr ClickhouseEventLogClient \<longleftrightarrow> name = ''CLICKHOUSE'') \<and>
   (get_event_saver name = Inr OutboxEventLogClient \<longleftrightarrow> name = ''OUTBOX'') \<and>
   (name \<noteq> ''STUB'' \<and> name \<noteq> ''CLICKHOUSE'' \<and> name \<noteq> ''OUTBOX'' \<longrightarrow>
      get_event_saver name = Inl (ValueError (''Unknown event saver type: '' @ name)) \<and>
      (EVENT_SAVER_TYPE rt = name \<longrightarrow>
         save_event_logs rt event_models w = (Inl (ValueError (''Unknown event saver type: '' @ name)), w))) \<and>
   (EVENT_SAVER_TYPE rt = ''STUB'' \<longrightarrow>
      save_event_logs rt event_models w
        = EventLogClientProtocol_init rt (StubEventLogClient_insert rt event_models) w) \<and>
   (EVENT_SAVER_TYPE rt = ''CLICKHOUSE'' \<longrightarrow>
      save_event_logs rt event_models w
        = ClickhouseEventLogClient_init rt (ClickhouseEventLogClient_insert rt event_models) w) \<and>
   (EVENT_SAVER_TYPE rt = ''OUTBOX'' \<longrightarrow>
      save_event_logs rt event_models w
        = EventLogClientProtocol_init rt (OutboxEventLogClient_insert rt event_models) w)"
  by (simp add: get_event_saver_def save_event_logs_def)

theorem get_event_saver_selection_witness:
  "get_event_saver ''DISCARD'' = Inl (ValueError ''Unknown event saver type: DISCARD'') \<and>
   save_event_logs (local_runtime\<lparr>EVENT_SAVER_TYPE := ''DISCARD''\<rparr>) [user_created] empty_world
     = (Inl (ValueError ''Unknown event saver type: DISCARD''), empty_world) \<and>
   get_event_saver ''OUTBOX'' = Inr OutboxEventLogClient \<and>
   save_event_logs local_runtime [user_created] empty_world
     = EventLogClientProtocol_init local_runtime (OutboxEventLogClient_insert local_runtime [user_created]) empty_world"
  using get_event_saver_selection [of "''DISCARD''" "local_runtime\<lparr>EVENT_SAVER_TYPE := ''DISCARD''\<rparr>" "[user_created]" empty_world]
    get_event_saver_selection [of "''OUTBOX''" local_runtime "[user_created]" empty_world]
  by (simp add: local_runtime_def)

subsection \<open>The retention job\<close>

text \<open>
  Claim C6. \<^verbatim>\<open>delete_sent_logs\<close> deletes exactly the rows that are sent and whose
  \<^verbatim>\<open>event_date_time\<close> is strictly before the clock reading minus 30 days, reports how many
  it deleted, and leaves every other row as it was, in place.
\<close>

theorem delete_sent_logs_retention:
  assumes "delete_sent_logs rt w = (status, w')"
  shows "outbox w' = filter (\<lambda>log. \<not> (is_sent log \<and> event_date_time log < clock rt (ticks w) - 2592000000000)) (outbox w) \<and>
         status = ''Deleted '' @ str_nat (length (outbox w) - length (outbox w')) @ '' sent logs.'' \<and>
         length (outbox w) - length (outbox w')
           = length (filter (\<lambda>log. is_sent log \<and> event_date_time log < clock rt (ticks w) - 2592000000000) (outbox w)) \<and>
         event_log w' = event_log w"
proof -
  let ?old = "\<lambda>log. is_sent log \<and> event_date_time log < clock rt (ticks w) - 2592000000000"
  have len: "length (filter ?old (outbox w)) + length (filter (\<lambda>log. \<not> ?old log) (outbox w)) = length (outbox w)"
    by (rule sum_length_filter_compl)
  from assms have w': "w' = w\<lparr>ticks := Suc (ticks w), outbox := filter (\<lambda>log. \<not> ?old log) (outbox w)\<rparr>"
    and st: "status = ''Deleted '' @ str_nat (length (filter ?old (outbox w))) @ '' sent logs.''"
    by (auto simp: delete_sent_logs_def timezone_now_def timedelta_days_def Let_def)
  from len have d: "length (outbox w) - length (filter (\<lambda>log. \<not> ?old log) (outbox w)) = length (filter ?old (outbox w))"
    by arith
  show ?thesis
    using d by (simp add: w' st)
qed

theorem delete_sent_logs_retention_witness:
  "delete_sent_logs local_runtime retention_example
     = (''Deleted 1 sent logs.'', retention_example\<lparr>ticks := 1, outbox := [recent_sent_row, old_unsent_row]\<rparr>) \<and>
   [recent_sent_row, old_unsent_row]
     = filter (\<lambda>log. \<not> (is_sent log \<and> event_date_time log < 1700000000000000 - 2592000000000))
         [old_sent_row, recent_sent_row, old_unsent_row] \<and>
   length (filter (\<lambda>log. is_sent log \<and> event_date_time log < 1700000000000000 - 2592000000000)
         [old_sent_row, recent_sent_row, old_unsent_row]) = 1"
proof -
  have run: "delete_sent_logs local_runtime retention_example
     = (''Deleted 1 sent logs.'', retention_example\<lparr>ticks := 1, outbox := [recent_sent_row, old_unsent_row]\<rparr>)"
    by code_simp
  have kept: "[recent_sent_row, old_unsent_row]
     = filter (\<lambda>log. \<not> (is_sent log \<and> event_date_time log < 1700000000000000 - 2592000000000))
         [old_sent_row, recent_sent_row, old_unsent_row]"
    by (simp add: old_sent_row_def recent_sent_row_def old_unsent_row_def)
  have deleted: "length (filter (\<lambda>log. is_sent log \<and> event_date_time log < 1700000000000000 - 2592000000000)
         [old_sent_row, recent_sent_row, old_unsent_row]) = 1"
    by (simp add: old_sent_row_def recent_sent_row_def old_unsent_row_def)
  from delete_sent_logs_retention [OF run] run kept deleted show ?thesis
    by blast
qed

subsection \<open>Converting a batch twice\<close>

text \<open>
  Claim C9. A batch that converts is converted again right after, and the two results
  agree in every \<^verbatim>\<open>event_type\<close> and every \<^verbatim>\<open>event_context\<close>; with a clock that never
  goes back, each time of the second conversion is at least the time at the same place
  of the first.
\<close>

theorem convert_data_twice:
  assumes "mono (clock rt)"
    and "convert_data rt data w = (Inr first, w1)"
  shows "\<exists>second w2. convert_data rt data w1 = (Inr second, w2) \<and>
           map (\<lambda>(etype, etime, env, ectx). etype) second = map (\<lambda>(etype, etime, env, ectx). etype) first \<and>
           map (\<lambda>(etype, etime, env, ectx). ectx) second = map (\<lambda>(etype, etime, env, ectx). ectx) first \<and>
           list_all2 (\<lambda>(etype, etime, env, ectx) (etype', etime', env', ectx'). etime \<le> etime') first second"
proof -
  note f = convert_data_Inr [OF assms(2)]
  from f have w1: "ticks w1 = ticks w + length data"
    by simp
  have enc: "list_all (\<lambda>event. \<not> isl (model_dump_json event)) data"
  proof -
    from f have m: "map model_dump_json data = map (\<lambda>(etype, etime, env, ectx). Inr ectx) first"
      by simp
    have "\<not> isl (model_dump_json event)" if "event \<in> set data" for event
    proof -
      from that have "model_dump_json event \<in> set (map model_dump_json data)"
        by simp
      then have "model_dump_json event \<in> set (map (\<lambda>(etype, etime, env, ectx). Inr ectx) first)"
        by (simp only: m)
      then show ?thesis by auto
    qed
    then show ?thesis by (simp add: list_all_iff)
  qed
  from convert_data_total [OF enc, of rt w1] obtain second where
    s: "convert_data rt data w1 = (Inr second, w1\<lparr>ticks := ticks w1 + length data\<rparr>)"
    by blast
  note g = convert_data_Inr [OF s]
  have types: "map (\<lambda>(etype, etime, env, ectx). etype) second = map (\<lambda>(etype, etime, env, ectx). etype) first"
    using f g by simp
  have "map (\<lambda>(etype, etime, env, ectx). Inr ectx :: exn + string) second
      = map (\<lambda>(etype, etime, env, ectx). Inr ectx) first"
    using f g by simp
  then have "map (Inr :: string \<Rightarrow> exn + string) (map (\<lambda>(etype, etime, env, ectx). ectx) second)
      = map Inr (map (\<lambda>(etype, etime, env, ectx). ectx) first)"
    by (simp add: comp_def case_prod_unfold)
  then have ctxs: "map (\<lambda>(etype, etime, env, ectx). ectx) second = map (\<lambda>(etype, etime, env, ectx). ectx) first"
    by (rule map_injective) simp
  have len: "length first = length data" "length second = length data"
    using f g by simp_all
  have times: "list_all2 (\<lambda>(etype, etime, env, ectx) (etype', etime', env', ectx'). etime \<le> etime') first second"
  proof (rule list_all2_all_nthI)
    show "length first = length second" using len by simp
  next
    fix i assume i: "i < length first"
    have t1: "(\<lambda>(etype, etime, env, ectx). etime) (first ! i) = clock rt (ticks w + i)"
    proof -
      from f have "map (\<lambda>(etype, etime, env, ectx). etime) first ! i = map (\<lambda>i. clock rt (ticks w + i)) [0..<length data] ! i"
        by simp
      with i len show ?thesis by simp
    qed
    have t2: "(\<lambda>(etype, etime, env, ectx). etime) (second ! i) = clock rt (ticks w1 + i)"
    proof -
      from g have "map (\<lambda>(etype, etime, env, ectx). etime) second ! i = map (\<lambda>i. clock rt (ticks w1 + i)) [0..<length data] ! i"
        by simp
      with i len show ?thesis by simp
    qed
    from assms(1) have "clock rt (ticks w + i) \<le> clock rt (ticks w1 + i)"
      by (rule monoD) (simp add: w1)
    with t1 t2 show "(case first ! i of (etype, etime, env, ectx) \<Rightarrow> \<lambda>(etype', etime', env', ectx'). etime \<le> etime') (second ! i)"
      by (simp add: case_prod_unfold)
  qed
  from s types ctxs times show ?thesis by blast
qed

theorem convert_data_twice_witness:
  "mono (clock local_runtime) \<and>
   convert_data local_runtime [user_created, user_created] empty_world
     = (Inr [(''user_created'', 1700000000000000, ''Local'', ''{}''),
             (''user_created'', 1700000000000001, ''Local'', ''{}'')], empty_world\<lparr>ticks := 2\<rparr>) \<and>
   (\<exists>second w2. convert_data local_runtime [user_created, user_created] (empty_world\<lparr>ticks := 2\<rparr>) = (Inr second, w2) \<and>
      map (\<lambda>(etype, etime, env, ectx). etype) second = [''user_created'', ''user_created''] \<and>
      map (\<lambda>(etype, etime, env, ectx). ectx) second = [''{}'', ''{}''] \<and>
      list_all2 (\<lambda>(etype, etime, env, ectx) (etype', etime', env', ectx'). etime \<le> etime')
        [(''user_created'', 1700000000000000, ''Local'', ''{}''),
         (''user_created'', 1700000000000001, ''Local'', ''{}'')] second)"
proof -
  have m: "mono (clock local_runtime)"
    by (simp add: local_runtime_def mono_def)
  have c: "convert_data local_runtime [user_created, user_created] empty_world
     = (Inr [(''user_created'', 1700000000000000, ''Local'', ''{}''),
             (''user_created'', 1700000000000001, ''Local'', ''{}'')], empty_world\<lparr>ticks := 2\<rparr>)"
    by code_simp
  from convert_data_twice [OF m c] m c show ?thesis
    by simp
qed

subsection \<open>Snake case\<close>

lemma is_upper_not_lower_digit: "is_upper c \<Longrightarrow> \<not> is_lower c \<and> \<not> is_digit c"
  by (simp add: is_upper_def is_lower_def is_digit_def)

lemma is_lower_not_upper: "is_lower c \<Longrightarrow> \<not> is_upper c"
  by (simp add: is_upper_def is_lower_def)

lemma underscore_no_letter:
  "\<not> is_upper (CHR ''_'')" "\<not> is_lower (CHR ''_'')" "\<not> is_digit (CHR ''_'')"
  by (simp_all add: is_upper_def is_lower_def is_digit_def)

lemma sub_lower_upper_head:
  "\<not> (is_lower c \<or> is_digit c) \<Longrightarrow> sub_lower_upper (c # rest) = c # sub_lower_upper rest"
  by (cases rest) simp_all

lemma sub_lower_upper_step:
  "sub_lower_upper (c # u # rest) =
     c # (if (is_lower c \<or> is_digit c) \<and> is_upper u
          then CHR ''_'' # sub_lower_upper (u # rest)
          else sub_lower_upper (u # rest))"
proof (cases "(is_lower c \<or> is_digit c) \<and> is_upper u")
  case True
  then have "sub_lower_upper (u # rest) = u # sub_lower_upper rest"
    using is_upper_not_lower_digit [of u] by (simp add: sub_lower_upper_head)
  with True show ?thesis by simp
next
  case False
  then show ?thesis by auto
qed

lemma sub_lower_upper_next_not_upper:
  "\<not> is_upper u \<Longrightarrow> sub_lower_upper (c # u # rest) = c # sub_lower_upper (u # rest)"
  by (simp add: sub_lower_upper_step)

lemma sub_lower_upper_lower_run:
  "list_all is_lower ls \<Longrightarrow> sub_lower_upper ls = ls"
proof (induction ls rule: sub_lower_upper.induct)
  case (1 c u rest)
  then show ?case
    using is_lower_not_upper [of u] by simp
qed simp_all

lemma sub_lower_upper_after_lower_run:
  "list_all is_lower ls \<Longrightarrow> ls \<noteq> [] \<Longrightarrow>
     sub_lower_upper (ls @ x # ys) =
       ls @ (if is_upper x then CHR ''_'' # sub_lower_upper (x # ys) else sub_lower_upper (x # ys))"
proof (induction ls)
  case Nil
  then show ?case by simp
next
  case (Cons a ls)
  show ?case
  proof (cases ls)
    case Nil
    with Cons.prems show ?thesis
      by (simp add: sub_lower_upper_step del: sub_lower_upper.simps)
  next
    case (Cons b ls')
    with Cons.prems have b: "\<not> is_upper b"
      by (simp add: is_lower_not_upper)
    from Cons Cons.prems Cons.IH have
      "sub_lower_upper (ls @ x # ys) =
         ls @ (if is_upper x then CHR ''_'' # sub_lower_upper (x # ys) else sub_lower_upper (x # ys))"
      by simp
    moreover have "sub_lower_upper ((a # ls) @ x # ys) = a # sub_lower_upper (ls @ x # ys)"
      using sub_lower_upper_next_not_upper [OF b, of a "ls' @ x # ys"] Cons by simp
    ultimately show ?thesis by simp
  qed
qed

lemma underscore_before_lower_run:
  "list_all is_lower ls \<Longrightarrow> underscore_before p (ls @ zs) = ls @ underscore_before (last (p # ls)) zs"
proof (induction ls arbitrary: p)
  case Nil
  then show ?case by simp
next
  case (Cons a ls)
  then have "\<not> is_upper a"
    by (simp add: is_lower_not_upper)
  with Cons show ?case by simp
qed

lemma sub_capitalized_word_head:
  "\<exists>ys. sub_capitalized_word (x # xs) = x # ys"
  by (cases "x # xs" rule: sub_capitalized_word.cases) auto

lemma dropWhile_head_not: "dropWhile P xs = x # xs' \<Longrightarrow> \<not> P x"
  by (metis hd_dropWhile list.distinct(1) list.sel(1))

lemma snake_case_scans:
  "CHR 0x0A \<notin> set s \<Longrightarrow>
     sub_lower_upper (sub_capitalized_word s) = (case s of [] \<Rightarrow> [] | c # cs \<Rightarrow> c # underscore_before c cs)"
proof (induction s rule: sub_capitalized_word.induct)
  case (1 c u l rest)
  define run where "run = l # takeWhile is_lower rest"
  define dw where "dw = dropWhile is_lower rest"
  have rest: "l # rest = run @ dw"
    by (simp add: run_def dw_def)
  from "1.prems" have nl: "c \<noteq> CHR 0x0A" "CHR 0x0A \<notin> set (u # l # rest)" "CHR 0x0A \<notin> set dw"
    by (auto simp: dw_def dest: set_dropWhileD)
  have goal: "(case c # u # l # rest of [] \<Rightarrow> [] | c # cs \<Rightarrow> c # underscore_before c cs)
      = c # underscore_before c (u # l # rest)"
    by simp
  show ?case
  proof (cases "is_upper u \<and> is_lower l")
    case True
    then have m: "c \<noteq> CHR 0x0A \<and> is_upper u \<and> is_lower l"
      using nl by simp
    have run: "list_all is_lower run" "run \<noteq> []"
      using True by (simp_all add: run_def list_all_iff) (meson set_takeWhileD)
    have scan1: "sub_capitalized_word (c # u # l # rest) = c # CHR ''_'' # u # run @ sub_capitalized_word dw"
      using m by (simp add: run_def dw_def)
    have scan2: "sub_lower_upper (c # CHR ''_'' # u # zs) = c # CHR ''_'' # u # sub_lower_upper zs" for zs
      using underscore_no_letter is_upper_not_lower_digit [of u] True
      by (simp add: sub_lower_upper_step sub_lower_upper_head del: sub_lower_upper.simps)
    have lhs0: "sub_lower_upper (sub_capitalized_word (c # u # l # rest))
        = c # CHR ''_'' # u # sub_lower_upper (run @ sub_capitalized_word dw)"
      by (simp only: scan1 scan2)
    have "underscore_before c (u # l # rest) = CHR ''_'' # u # underscore_before u (l # rest)"
      using True by simp
    also have "underscore_before u (l # rest) = run @ underscore_before (last (u # run)) dw"
      unfolding rest using run(1) by (rule underscore_before_lower_run)
    finally have rhs0: "c # underscore_before c (u # l # rest)
        = c # CHR ''_'' # u # run @ underscore_before (last run) dw"
      using run(2) by simp
    have mid: "sub_lower_upper (run @ sub_capitalized_word dw) = run @ underscore_before (last run) dw"
    proof (cases dw)
      case Nil
      then show ?thesis
        using sub_lower_upper_lower_run [OF run(1)] by simp
    next
      case (Cons x dw')
      from Cons have "dropWhile is_lower rest = x # dw'"
        by (simp add: dw_def)
      then have x: "\<not> is_lower x"
        by (rule dropWhile_head_not)
      from sub_capitalized_word_head [of x dw'] obtain ys where ys: "sub_capitalized_word dw = x # ys"
        using Cons by auto
      from "1.IH"(1) [OF m] nl(3) have "sub_lower_upper (sub_capitalized_word dw)
          = (case dw of [] \<Rightarrow> [] | c # cs \<Rightarrow> c # underscore_before c cs)"
        by (simp add: dw_def)
      moreover from ys Cons have ys': "sub_capitalized_word (x # dw') = x # ys"
        by simp
      ultimately have ih: "sub_lower_upper (x # ys) = x # underscore_before x dw'"
        by (simp add: Cons)
      have last_lower: "is_lower (last run)"
        using run by (metis last_in_set list_all_iff)
      have a: "sub_lower_upper (run @ x # ys)
          = run @ (if is_upper x then CHR ''_'' # x # underscore_before x dw' else x # underscore_before x dw')"
        using sub_lower_upper_after_lower_run [OF run, of x ys] by (simp only: ih)
      have b: "underscore_before (last run) (x # dw')
          = (if is_upper x then CHR ''_'' # x # underscore_before x dw' else x # underscore_before x dw')"
        using last_lower by simp
      show ?thesis
        by (simp only: Cons ys' a b)
    qed
    show ?thesis
      by (simp only: goal lhs0 rhs0 mid)
  next
    case False
    then have nm: "\<not> (c \<noteq> CHR 0x0A \<and> is_upper u \<and> is_lower l)" by simp
    from "1.IH"(2) [OF nm nl(2)]
    have ih: "sub_lower_upper (sub_capitalized_word (u # l # rest)) = u # underscore_before u (l # rest)"
      by simp
    from sub_capitalized_word_head [of u "l # rest"] obtain ys where
      ys: "sub_capitalized_word (u # l # rest) = u # ys" by blast
    have "sub_capitalized_word (c # u # l # rest) = c # sub_capitalized_word (u # l # rest)"
      using False by auto
    then have "sub_capitalized_word (c # u # l # rest) = c # u # ys"
      by (simp only: ys)
    then have "sub_lower_upper (sub_capitalized_word (c # u # l # rest)) = sub_lower_upper (c # u # ys)"
      by (simp only:)
    also have "\<dots> = c # (if (is_lower c \<or> is_digit c) \<and> is_upper u
          then CHR ''_'' # sub_lower_upper (u # ys) else sub_lower_upper (u # ys))"
      by (rule sub_lower_upper_step)
    also have "sub_lower_upper (u # ys) = u # underscore_before u (l # rest)"
      using ih by (simp only: ys)
    also have "c # (if (is_lower c \<or> is_digit c) \<and> is_upper u
          then CHR ''_'' # u # underscore_before u (l # rest) else u # underscore_before u (l # rest))
        = c # underscore_before c (u # l # rest)"
      using False by auto
    finally show ?thesis
      by (simp only: goal)
  qed
next
  case 2
  then show ?case by simp
next
  case (3 c)
  then show ?case by simp
next
  case (4 c u)
  then show ?case by simp
qed

lemma class_name_no_newline: "is_class_name s \<Longrightarrow> CHR 0x0A \<notin> set s"
proof
  assume c: "is_class_name s" and n: "CHR 0x0A \<in> set s"
  from c have "list_all is_identifier_char s"
    by (cases s) (simp_all add: is_class_name_def)
  with n have "is_identifier_char (CHR 0x0A)"
    by (simp add: list_all_iff)
  then show False
    by (simp add: is_identifier_char_def is_upper_def is_lower_def is_digit_def)
qed

text \<open>
  Claim C5. For every class name, \<^verbatim>\<open>_to_snake_case\<close> (the two substitutions and the
  lower-casing) gives what the rule says: an underscore between a lower-case letter or
  digit and an upper-case letter after it, an underscore between an upper-case letter
  that is followed by a lower-case letter and the character before it, and the result
  in lower case. In particular \<^verbatim>\<open>UserCreated\<close> gives \<^verbatim>\<open>user_created\<close>, \<^verbatim>\<open>HTTPRequestLog\<close>
  gives \<^verbatim>\<open>http_request_log\<close> and \<^verbatim>\<open>A\<close> gives \<^verbatim>\<open>a\<close>.
\<close>

theorem to_snake_case_rule:
  "(is_class_name name \<longrightarrow> to_snake_case name = snake_case_rule name) \<and>
   to_snake_case ''UserCreated'' = ''user_created'' \<and>
   to_snake_case ''HTTPRequestLog'' = ''http_request_log'' \<and>
   to_snake_case ''A'' = ''a''"
proof -
  have a: "to_snake_case name = snake_case_rule name" if "is_class_name name"
    using snake_case_scans [OF class_name_no_newline [OF that]]
    by (simp add: to_snake_case_def snake_case_rule_def)
  have b: "to_snake_case ''UserCreated'' = ''user_created''"
    by code_simp
  have c: "to_snake_case ''HTTPRequestLog'' = ''http_request_log''"
    by code_simp
  have d: "to_snake_case ''A'' = ''a''"
    by code_simp
  from a b c d show ?thesis by blast
qed

theorem to_snake_case_rule_witness:
  "is_class_name ''HTTPRequestLog'' \<and>
   to_snake_case ''HTTPRequestLog'' = snake_case_rule ''HTTPRequestLog'' \<and>
   snake_case_rule ''HTTPRequestLog'' = ''http_request_log''"
proof -
  have a: "is_class_name ''HTTPRequestLog''"
    by code_simp
  have b: "snake_case_rule ''HTTPRequestLog'' = ''http_request_log''"
    by code_simp
  from to_snake_case_rule [of "''HTTPRequestLog''"] a b show ?thesis
    by blast
qed

subsection \<open>The outbox and the reconciliation job\<close>

lemma update_is_sent_eq: "update_is_sent table = map (\<lambda>log. log\<lparr>is_sent := True\<rparr>) table"
proof -
  have "(if is_sent log = False then log\<lparr>is_sent := True\<rparr> else log) = log\<lparr>is_sent := True\<rparr>"
    for log :: EventLogOutbox
    by (cases log) simp
  then show ?thesis
    by (simp add: update_is_sent_def)
qed

lemma save_to_outbox_Inr:
  assumes "save_to_outbox rows w = (Inr u, w1)"
  shows "\<exists>new. w1 = w\<lparr>outbox := outbox w @ new\<rparr> \<and> map log_columns new = rows \<and>
           list_all (\<lambda>log. is_sent log = False) new"
proof -
  let ?new = "map (\<lambda>(etype, edate, env, ectx).
                   \<lparr>event_type = etype, event_date_time = edate, environment = env,
                    event_context = ectx, is_sent = False\<rparr>) rows"
  from assms have "w1 = w\<lparr>outbox := outbox w @ ?new\<rparr>"
    by (simp add: save_to_outbox_def bulk_create_def Let_def split: if_splits)
  moreover have "map log_columns ?new = rows"
    by (induction rows) (auto simp: log_columns_def)
  moreover have "list_all (\<lambda>log. is_sent log = False) ?new"
    by (induction rows) auto
  ultimately show ?thesis by blast
qed

lemma OutboxEventLogClient_insert_Inr:
  assumes "OutboxEventLogClient_insert rt data w = (Inr u, w1)"
  shows "\<exists>new. w1 = w\<lparr>ticks := ticks w + length data, outbox := outbox w @ new\<rparr> \<and>
           length new = length data \<and> list_all (\<lambda>log. is_sent log = False) new \<and>
           convert_data rt data w = (Inr (map log_columns new), w\<lparr>ticks := ticks w + length data\<rparr>)"
proof (cases "convert_data rt data w")
  case (Pair r w0)
  with assms obtain rows where r: "r = Inr rows" and s: "save_to_outbox rows w0 = (Inr u, w1)"
    by (cases r) (auto simp: OutboxEventLogClient_insert_def)
  from convert_data_Inr [OF Pair [unfolded r]]
  have w0: "w0 = w\<lparr>ticks := ticks w + length data\<rparr>" and len: "length rows = length data"
    by simp_all
  from save_to_outbox_Inr [OF s] obtain new where
    n: "w1 = w0\<lparr>outbox := outbox w0 @ new\<rparr>" "map log_columns new = rows"
       "list_all (\<lambda>log. is_sent log = False) new"
    by blast
  from n(2) len have "length new = length data"
    by (metis length_map)
  with n Pair r w0 show ?thesis
    by auto
qed

lemma flush_keeps_outbox:
  assumes "get_client_raises rt = None"
  shows "\<exists>w1. ClickhouseEventLogClient_init rt (ClickhouseEventLogClient_insert_raw rt data) w = (Inr (), w1) \<and>
           outbox w1 = outbox w"
proof -
  obtain r w0 where c: "client_insert_raw_data rt data (w\<lparr>clients_opened := Suc (clients_opened w)\<rparr>) = (r, w0)"
    by (cases "client_insert_raw_data rt data (w\<lparr>clients_opened := Suc (clients_opened w)\<rparr>)")
  then have o: "outbox w0 = outbox w"
    by (cases data)
      (auto simp: client_insert_raw_data_def client_insert_def split: option.splits)
  obtain r' w0' where e: "except_DatabaseError (r, w0) = (r', w0')"
    by (cases "except_DatabaseError (r, w0)")
  then have o': "outbox w0' = outbox w0"
    by (cases r) (auto simp: except_DatabaseError_def logger_error_def split: if_splits)
  from assms c e o o' show ?thesis
    by (cases r')
      (simp_all add: ClickhouseEventLogClient_init_def ClickhouseEventLogClient_insert_raw_def logger_error_def)
qed

lemma flush_accepted:
  assumes "get_client_raises rt = None" and "client_insert_raises rt = None"
    and "generator_rows_raise rt = None"
  shows "ClickhouseEventLogClient_init rt (ClickhouseEventLogClient_insert_raw rt (Generators yielded)) w
           = (Inr (), w\<lparr>clients_opened := Suc (clients_opened w), event_log := event_log w @ yielded,
                         clients_closed := Suc (clients_closed w)\<rparr>)"
  using assms
  by (simp add: ClickhouseEventLogClient_init_def ClickhouseEventLogClient_insert_raw_def
      except_DatabaseError_def client_insert_raw_data_def)

text \<open>
  A run that finds unsent rows and gets its client marks every row sent and answers
  with its success text, whatever the driver call did.
\<close>

lemma send_unsent_logs_marks_every_row:
  assumes "select_for_update_raises rt = None" and "unsent_logs (outbox w) \<noteq> []"
    and "get_client_raises rt = None"
  shows "\<exists>w1. send_unsent_logs_to_clickhouse rt w
                 = (Inr (''Successfully sent '' @ str_nat (length (unsent_logs (outbox w)))
                         @ '' logs to Clickhouse.''), w1) \<and>
           outbox w1 = map (\<lambda>log. log\<lparr>is_sent := True\<rparr>) (outbox w)"
proof -
  from flush_keeps_outbox [OF assms(3), of "logs_to_send (unsent_logs (outbox w))" w] obtain w0 where
    f: "ClickhouseEventLogClient_init rt
          (ClickhouseEventLogClient_insert_raw rt (logs_to_send (unsent_logs (outbox w)))) w = (Inr (), w0)"
    and o: "outbox w0 = outbox w"
    by blast
  from assms(1,2) f have "send_unsent_logs_to_clickhouse rt w
      = (Inr (''Successfully sent '' @ str_nat (length (unsent_logs (outbox w))) @ '' logs to Clickhouse.''),
         w0\<lparr>outbox := update_is_sent (outbox w0)\<rparr>)"
    by (simp add: send_unsent_logs_to_clickhouse_def Let_def)
  moreover have "outbox (w0\<lparr>outbox := update_is_sent (outbox w0)\<rparr>)
      = map (\<lambda>log. log\<lparr>is_sent := True\<rparr>) (outbox w)"
    by (simp add: o update_is_sent_eq)
  ultimately show ?thesis by blast
qed

text \<open>
  What holds of the round trip: after \<open>N \<ge> 1\<close> events have been inserted into an empty
  outbox, one run with a store that accepts the write and a driver that reads
  generators leaves \<open>N\<close> rows, all sent, and the event-log table has received \<open>N\<close>
  times the columns of the last row.
\<close>

lemma round_trip_delivers_last_row:
  assumes "outbox w = []" and "1 \<le> length data"
    and "OutboxEventLogClient_insert rt data w = (Inr (), w1)"
    and "select_for_update_raises rt = None" and "get_client_raises rt = None"
    and "client_insert_raises rt = None" and "generator_rows_raise rt = None"
  shows "\<exists>w2. send_unsent_logs_to_clickhouse rt w1
                 = (Inr (''Successfully sent '' @ str_nat (length data) @ '' logs to Clickhouse.''), w2) \<and>
           length (outbox w2) = length data \<and>
           filter (\<lambda>log. is_sent log = False) (outbox w2) = [] \<and>
           event_log w2 = event_log w @ replicate (length data) (log_columns (last (outbox w1)))"
proof -
  from OutboxEventLogClient_insert_Inr [OF assms(3)] assms(1) obtain new where
    w1: "w1 = w\<lparr>ticks := ticks w + length data, outbox := new\<rparr>"
    and len: "length new = length data"
    and unsent: "list_all (\<lambda>log. is_sent log = False) new"
    by auto
  from unsent have u: "unsent_logs new = new"
    by (simp add: unsent_logs_def filter_id_conv list_all_iff)
  from len assms(2) have ne: "new \<noteq> []"
    by auto
  let ?w2 = "w1\<lparr>clients_opened := Suc (clients_opened w1),
                event_log := event_log w1 @ map (\<lambda>log. log_columns (last new)) new,
                clients_closed := Suc (clients_closed w1), outbox := update_is_sent new\<rparr>"
  have run: "send_unsent_logs_to_clickhouse rt w1
               = (Inr (''Successfully sent '' @ str_nat (length data) @ '' logs to Clickhouse.''), ?w2)"
    using u ne len assms(4)
    by (simp add: send_unsent_logs_to_clickhouse_def Let_def w1 logs_to_send_def
        flush_accepted [OF assms(5) assms(6) assms(7)])
  have a: "length (outbox ?w2) = length data"
    by (simp add: len update_is_sent_eq)
  have b: "filter (\<lambda>log. is_sent log = False) (outbox ?w2) = []"
    by (simp add: update_is_sent_eq filter_empty_conv)
  have c: "event_log ?w2 = event_log w @ replicate (length data) (log_columns (last (outbox w1)))"
    by (simp add: w1 map_replicate_const len)
  from run a b c show ?thesis
    by blast
qed

text \<open>
  Claim C2. The \<^verbatim>\<open>is_sent\<close> of a row starts false and is set to true at most once, only
  by the reconciliation job, only for the rows claimed at the start of the run, inside
  the transaction of the claim, and only after the analytics store has confirmed the
  batch write. The code does not wait for a confirmation. With one unsent row and a
  driver call that fails with an exception other than \<^verbatim>\<open>DatabaseError\<close>, the scope of
  \<^verbatim>\<open>init\<close> logs the error and ends normally, and the \<^verbatim>\<open>UPDATE\<close> marks the row sent and
  the run answers with its success text, while nothing has reached the event-log table.
\<close>

theorem send_unsent_logs_marks_sent_unconfirmed:
  "send_unsent_logs_to_clickhouse connection_reset one_unsent =
     (Inr ''Successfully sent 1 logs to Clickhouse.'',
      one_unsent\<lparr>outbox := [unsent_row\<lparr>is_sent := True\<rparr>],
        logged := [LogError ''error while executing clickhouse query'' ''connection reset''],
        clients_opened := 1, clients_closed := 1\<rparr>)"
  by (simp add: send_unsent_logs_to_clickhouse_def connection_reset_def local_runtime_def
      one_unsent_def empty_world_def unsent_row_def unsent_logs_def update_is_sent_def
      log_columns_def logs_to_send_def and_then_def ClickhouseEventLogClient_init_def
      ClickhouseEventLogClient_insert_raw_def client_insert_raw_data_def
      except_DatabaseError_def logger_error_def str_nat.simps)

text \<open>
  Claim C3. For every \<open>N \<ge> 1\<close>, after \<open>N\<close> entries have been appended through
  \<^verbatim>\<open>OutboxEventLogClient.insert\<close>, one run of the reconciliation job with a store that
  accepts the write leaves exactly \<open>N\<close> rows sent and none unsent, and the \<open>N\<close> records
  delivered are the tuples of those rows. The code marks the rows but does not deliver
  their tuples. With two events, the generators of \<^verbatim>\<open>logs_to_send\<close> both yield the columns
  of the last row: a driver that reads them appends the second row twice and the first
  row never, and a driver that takes the length of its first row raises, the scope of
  \<^verbatim>\<open>init\<close> logs that, and nothing is delivered. Either way both rows are marked sent.
\<close>

theorem round_trip_two_events_delivers_last_twice:
  "OutboxEventLogClient_insert local_runtime [user_created, user_deleted] empty_world
     = (Inr (), two_unsent) \<and>
   send_unsent_logs_to_clickhouse local_runtime two_unsent =
     (Inr ''Successfully sent 2 logs to Clickhouse.'',
      two_unsent\<lparr>outbox := [unsent_row\<lparr>is_sent := True\<rparr>, deleted_row\<lparr>is_sent := True\<rparr>],
        event_log := [log_columns deleted_row, log_columns deleted_row],
        clients_opened := 1, clients_closed := 1\<rparr>) \<and>
   send_unsent_logs_to_clickhouse driver_refuses_generators two_unsent =
     (Inr ''Successfully sent 2 logs to Clickhouse.'',
      two_unsent\<lparr>outbox := [unsent_row\<lparr>is_sent := True\<rparr>, deleted_row\<lparr>is_sent := True\<rparr>],
        logged := [LogError ''error while executing clickhouse query''
                     ''TypeError: generator has no len()''],
        clients_opened := 1, clients_closed := 1\<rparr>)"
proof -
  have a: "OutboxEventLogClient_insert local_runtime [user_created, user_deleted] empty_world
     = (Inr (), two_unsent)"
    by code_simp
  have b: "send_unsent_logs_to_clickhouse local_runtime two_unsent =
     (Inr ''Successfully sent 2 logs to Clickhouse.'',
      two_unsent\<lparr>outbox := [unsent_row\<lparr>is_sent := True\<rparr>, deleted_row\<lparr>is_sent := True\<rparr>],
        event_log := [log_columns deleted_row, log_columns deleted_row],
        clients_opened := 1, clients_closed := 1\<rparr>)"
    by code_simp
  have c: "send_unsent_logs_to_clickhouse driver_refuses_generators two_unsent =
     (Inr ''Successfully sent 2 logs to Clickhouse.'',
      two_unsent\<lparr>outbox := [unsent_row\<lparr>is_sent := True\<rparr>, deleted_row\<lparr>is_sent := True\<rparr>],
        logged := [LogError ''error while executing clickhouse query''
                     ''TypeError: generator has no len()''],
        clients_opened := 1, clients_closed := 1\<rparr>)"
    by code_simp
  from a b c show ?thesis by blast
qed

end
